theory Spec2Isabelle
  imports Main "HOL-Library.AList"
begin

section \<open>JavaScript values\<close>

text \<open>
  The resolvers of \<^verbatim>\<open>externalPluginComponents.ts\<close> read untyped values from the global
  object and inspect them with \<^verbatim>\<open>!v\<close>, \<^verbatim>\<open>typeof v\<close>, \<^verbatim>\<open>v?.default\<close>, \<^verbatim>\<open>v[key]\<close> and
  \<^verbatim>\<open>Object.keys(v)\<close>. A value is one of the following. An object is the list of its own
  enumerable properties in enumeration order (each key at most once); a function carries
  an identity and its own properties, since a JavaScript function is an object too.
  Numbers are kept as integers plus NaN: the code only tests them for truthiness.
  Prototype chains, getters and proxies are not modelled.
\<close>

datatype jsval =
    Undefined
  | Null
  | JBool bool
  | JNum int
  | JNaN
  | JStr string
  | JSym string
  | JObj "(string \<times> jsval) list"
  | JArr "jsval list"
  | JFun nat "(string \<times> jsval) list"

type_synonym props = "(string \<times> jsval) list"

text \<open>\<^verbatim>\<open>!v\<close> is false exactly on the truthy values.\<close>

fun truthy :: "jsval \<Rightarrow> bool" where
  "truthy Undefined = False"
| "truthy Null = False"
| "truthy (JBool b) = b"
| "truthy (JNum n) = (n \<noteq> 0)"
| "truthy JNaN = False"
| "truthy (JStr s) = (s \<noteq> [])"
| "truthy (JSym s) = True"
| "truthy (JObj ps) = True"
| "truthy (JArr xs) = True"
| "truthy (JFun f ps) = True"

fun typeof_js :: "jsval \<Rightarrow> string" where
  "typeof_js Undefined = ''undefined''"
| "typeof_js Null = ''object''"
| "typeof_js (JBool b) = ''boolean''"
| "typeof_js (JNum n) = ''number''"
| "typeof_js JNaN = ''number''"
| "typeof_js (JStr s) = ''string''"
| "typeof_js (JSym s) = ''symbol''"
| "typeof_js (JObj ps) = ''object''"
| "typeof_js (JArr xs) = ''object''"
| "typeof_js (JFun f ps) = ''function''"

text \<open>The decimal numeral of an array index, as \<^verbatim>\<open>Object.keys\<close> prints it.\<close>

fun decimal :: "nat \<Rightarrow> string" where
  "decimal n =
     (if n < 10 then [''0123456789'' ! n]
      else decimal (n div 10) @ [''0123456789'' ! (n mod 10)])"

declare decimal.simps [simp del]

text \<open>
  \<^verbatim>\<open>Object.keys(v)\<close>: the own enumerable string keys. The code calls it only on a
  non-null value whose \<^verbatim>\<open>typeof\<close> is \<^verbatim>\<open>"object"\<close>.
\<close>

fun ownKeys :: "jsval \<Rightarrow> string list" where
  "ownKeys (JObj ps) = map fst ps"
| "ownKeys (JArr xs) = map decimal [0..<length xs]"
| "ownKeys (JFun f ps) = map fst ps"
| "ownKeys (JStr s) = map decimal [0..<length s]"
| "ownKeys v = []"

text \<open>
  \<^verbatim>\<open>v?.[k]\<close>: reading a property. On \<^verbatim>\<open>undefined\<close> and \<^verbatim>\<open>null\<close> the optional chain
  gives \<^verbatim>\<open>undefined\<close>; the code reads without \<^verbatim>\<open>?.\<close> only behind a truthiness test of the
  same value. The code reads the key \<^verbatim>\<open>default\<close> and the keys that \<^verbatim>\<open>Object.keys\<close> lists;
  the built-in properties of primitives and functions are none of these.
\<close>

fun getProp :: "jsval \<Rightarrow> string \<Rightarrow> jsval" where
  "getProp (JObj ps) k = (case map_of ps k of Some v \<Rightarrow> v | None \<Rightarrow> Undefined)"
| "getProp (JFun f ps) k = (case map_of ps k of Some v \<Rightarrow> v | None \<Rightarrow> Undefined)"
| "getProp (JArr xs) k =
     (if k = ''length'' then JNum (int (length xs))
      else case List.find (\<lambda>i. decimal i = k) [0..<length xs] of
             Some i \<Rightarrow> xs ! i
           | None \<Rightarrow> Undefined)"
| "getProp v k = Undefined"

section \<open>Components and elements\<close>

text \<open>
  What the resolvers return. \<open>Connected c\<close> stands for
  \<^verbatim>\<open>withRouter(connect(mapStateToProps, mapDispatchToProps)(c))\<close>, the unit decorated by
  the routing and store libraries. \<open>Wrapped item overwriteProps\<close> is the function
  component that \<^verbatim>\<open>wrapComponentWithProps(item, overwriteProps)\<close> returns, kept as data
  so that results can be compared; \<open>render\<close> below calls it.
  \<open>CreateElement type props children\<close> records a call of \<^verbatim>\<open>React.createElement\<close>.
\<close>

datatype component =
    Connected jsval
  | Wrapped component props

datatype element = CreateElement component props jsval

section \<open>The resolvers\<close>

definition PREFIX :: string where
  "PREFIX = ''MagdaPluginComponent''"

text \<open>
  \<^verbatim>\<open>ReactIs.isValidElementType\<close> belongs to the rendering library; it is the parameter
  \<open>reactIs\<close> of everything below.
\<close>

definition isValidElementType :: "(jsval \<Rightarrow> bool) \<Rightarrow> jsval \<Rightarrow> bool" where
  "isValidElementType reactIs c =
     (if \<not> truthy c \<or> typeof_js c = ''string'' then False else reactIs c)"

definition getComponentByRef :: "(jsval \<Rightarrow> bool) \<Rightarrow> jsval \<Rightarrow> component option" where
  "getComponentByRef reactIs componentRef =
     (if \<not> truthy componentRef then None
      else
        let component =
              (if truthy (getProp componentRef ''default'')
                  \<and> isValidElementType reactIs (getProp componentRef ''default'')
               then getProp componentRef ''default''
               else if isValidElementType reactIs componentRef then componentRef
               else Null)
        in if \<not> truthy component then None else Some (Connected component))"

text \<open>The global object \<^verbatim>\<open>window\<close> is the list of its properties.\<close>

definition getComponent :: "(jsval \<Rightarrow> bool) \<Rightarrow> props \<Rightarrow> string \<Rightarrow> component option" where
  "getComponent reactIs window name =
     (let fullComponentName = PREFIX @ name;
          ExternalComponent =
            (if truthy (getProp (getProp (JObj window) fullComponentName) ''default'')
             then getProp (getProp (JObj window) fullComponentName) ''default''
             else if truthy (getProp (JObj window) fullComponentName)
             then getProp (JObj window) fullComponentName
             else Null)
      in getComponentByRef reactIs ExternalComponent)"

text \<open>
  Object spread \<^verbatim>\<open>{...target, ...source}\<close>: the properties of the source are written
  one by one; a key already present keeps its place and takes the new value, a new key
  goes last. JavaScript enumerates integer-like keys first, in ascending order; that
  reordering is not modelled, so only the content of the result, key by key, is meant.
\<close>

definition spread :: "props \<Rightarrow> props \<Rightarrow> props" where
  "spread target source = fold (\<lambda>(k, v) acc. AList.update k v acc) source target"

text \<open>
  The function component returned by \<^verbatim>\<open>wrapComponentWithProps(component, overwriteProps)\<close>,
  applied to the caller's props.
\<close>

definition wrapComponentWithProps :: "component \<Rightarrow> props \<Rightarrow> props \<Rightarrow> element" where
  "wrapComponentWithProps component overwriteProps props =
     (let children = getProp (JObj props) ''children'';
          restProps = filter (\<lambda>(k, v). k \<noteq> ''children'') props
      in CreateElement component
           (spread (spread [] (if truthy (JObj restProps) then restProps else []))
              overwriteProps)
           children)"

fun render :: "component \<Rightarrow> props \<Rightarrow> element option" where
  "render (Wrapped component overwriteProps) props =
     Some (wrapComponentWithProps component overwriteProps props)"
| "render (Connected c) props = None"

text \<open>
  The \<^verbatim>\<open>keys.forEach\<close> loop of \<^verbatim>\<open>getMultipleComponents\<close>: the state is the pair of the
  arrays \<^verbatim>\<open>extraPluginNames\<close> and \<^verbatim>\<open>pluginComponents\<close>, both pushed to at the end.
\<close>

fun forEachKey ::
  "(jsval \<Rightarrow> bool) \<Rightarrow> jsval \<Rightarrow> string list \<Rightarrow> string list \<times> component list
     \<Rightarrow> string list \<times> component list" where
  "forEachKey reactIs exportedValue [] acc = acc"
| "forEachKey reactIs exportedValue (key # keys) (extraPluginNames, pluginComponents) =
     (case getComponentByRef reactIs (getProp exportedValue key) of
        Some pluginComponent \<Rightarrow>
          forEachKey reactIs exportedValue keys
            (extraPluginNames @ [key], pluginComponents @ [pluginComponent])
      | None \<Rightarrow>
          forEachKey reactIs exportedValue keys (extraPluginNames, pluginComponents))"

definition getMultipleComponents ::
  "(jsval \<Rightarrow> bool) \<Rightarrow> props \<Rightarrow> string \<Rightarrow> component list option" where
  "getMultipleComponents reactIs window name =
     (let exportedScopeName = PREFIX @ name;
          exportedValue =
            (if truthy (getProp (getProp (JObj window) exportedScopeName) ''default'')
             then getProp (getProp (JObj window) exportedScopeName) ''default''
             else if truthy (getProp (JObj window) exportedScopeName)
             then getProp (JObj window) exportedScopeName
             else Null)
      in if \<not> truthy exportedValue then None
         else
           case getComponentByRef reactIs exportedValue of
             Some signleComponent \<Rightarrow> Some [signleComponent]
           | None \<Rightarrow>
               if typeof_js exportedValue \<noteq> ''object'' then None
               else
                 let keys = ownKeys exportedValue
                 in if keys = [] then None
                    else
                      let (extraPluginNames, pluginComponents) =
                            forEachKey reactIs exportedValue keys ([], [])
                      in Some (map (\<lambda>item.
                                 Wrapped item
                                   [(''loadedPluginNames'', JArr (map JStr extraPluginNames))])
                               pluginComponents))"

text \<open>
  A rendering check for the examples: it accepts strings and functions, as the rendering
  library's check does by their \<^verbatim>\<open>typeof\<close>, and nothing else.
\<close>

definition acceptsFunctions :: "jsval \<Rightarrow> bool" where
  "acceptsFunctions v = (typeof_js v = ''string'' \<or> typeof_js v = ''function'')"

text \<open>
  Both resolvers begin with the same expression: the \<^verbatim>\<open>default\<close> property of the
  registered value when that property is truthy, the registered value itself when it is
  truthy, \<^verbatim>\<open>null\<close> otherwise. \<open>slotValue\<close> names it, for the lemmas below.
\<close>

definition slotValue :: "props \<Rightarrow> string \<Rightarrow> jsval" where
  "slotValue window name =
     (if truthy (getProp (getProp (JObj window) (PREFIX @ name)) ''default'')
      then getProp (getProp (JObj window) (PREFIX @ name)) ''default''
      else if truthy (getProp (JObj window) (PREFIX @ name))
      then getProp (JObj window) (PREFIX @ name)
      else Null)"

section \<open>Basic facts\<close>

lemma falsy_getProp: "\<not> truthy v \<Longrightarrow> getProp v k = Undefined"
  by (cases v) simp_all

lemma primitive_getProp:
  "typeof_js e \<noteq> ''object'' \<Longrightarrow> typeof_js e \<noteq> ''function'' \<Longrightarrow> getProp e k = Undefined"
  by (cases e) simp_all

lemma valid_truthy: "isValidElementType r c \<Longrightarrow> truthy c"
  by (simp add: isValidElementType_def split: if_splits)

lemma invalid_falsy: "\<not> truthy c \<Longrightarrow> \<not> isValidElementType r c"
  by (simp add: isValidElementType_def)

lemma acceptsFunctions_fun: "isValidElementType acceptsFunctions (JFun f ps)"
  by (simp add: isValidElementType_def acceptsFunctions_def)

lemma acceptsFunctions_obj: "\<not> acceptsFunctions (JObj ps)"
  by (simp add: acceptsFunctions_def)

lemma acceptsFunctions_num: "\<not> isValidElementType acceptsFunctions (JNum n)"
  by (simp add: isValidElementType_def acceptsFunctions_def)

text \<open>
  The materializer \<open>getComponentByRef\<close> in one equation: a valid \<^verbatim>\<open>default\<close> first, the
  value itself second, nothing otherwise. A valid value is truthy, so the two truthiness
  tests of the source add nothing to the validity tests.
\<close>

lemma getComponentByRef_order:
  "getComponentByRef r c =
     (if isValidElementType r (getProp c ''default'') then Some (Connected (getProp c ''default''))
      else if isValidElementType r c then Some (Connected c)
      else None)"
proof (cases "truthy c")
  case True
  then show ?thesis
    by (auto simp: getComponentByRef_def Let_def dest: valid_truthy)
next
  case False
  then have "getProp c ''default'' = Undefined" by (rule falsy_getProp)
  with False show ?thesis
    by (simp add: getComponentByRef_def invalid_falsy)
qed

lemma getComponentByRef_falsy: "\<not> truthy c \<Longrightarrow> getComponentByRef r c = None"
  by (simp add: getComponentByRef_def)

lemma getComponentByRef_valid:
  assumes "isValidElementType r c"
  obtains u where "getComponentByRef r c = Some u"
  using assms by (cases "isValidElementType r (getProp c ''default'')")
    (simp_all add: getComponentByRef_order)

lemma slotValue_entry:
  assumes "map_of window (PREFIX @ name) = Some e"
  shows "slotValue window name =
     (if truthy (getProp e ''default'') then getProp e ''default''
      else if truthy e then e else Null)"
  using assms by (simp add: slotValue_def)

lemma slotValue_absent:
  assumes "map_of window (PREFIX @ name) = None"
  shows "slotValue window name = Null"
  using assms by (simp add: slotValue_def)

lemma getComponent_slotValue:
  "getComponent r window name = getComponentByRef r (slotValue window name)"
  by (simp add: getComponent_def slotValue_def Let_def)

lemma getMultipleComponents_slotValue:
  "getMultipleComponents r window name =
     (if \<not> truthy (slotValue window name) then None
      else case getComponentByRef r (slotValue window name) of
             Some u \<Rightarrow> Some [u]
           | None \<Rightarrow>
               if typeof_js (slotValue window name) \<noteq> ''object''
                  \<or> ownKeys (slotValue window name) = []
               then None
               else Some (map (\<lambda>item. Wrapped item
                     [(''loadedPluginNames'',
                       JArr (map JStr (fst (forEachKey r (slotValue window name)
                          (ownKeys (slotValue window name)) ([], [])))))])
                    (snd (forEachKey r (slotValue window name)
                          (ownKeys (slotValue window name)) ([], [])))))"
  by (simp add: getMultipleComponents_def slotValue_def Let_def split_def split: option.splits)

lemma forEachKey_none:
  "\<forall>k\<in>set ks. getComponentByRef r (getProp ev k) = None \<Longrightarrow> forEachKey r ev ks acc = acc"
  by (induction ks arbitrary: acc) (auto split: prod.splits)

lemma forEachKey_lengths:
  "length (fst acc) = length (snd acc) \<Longrightarrow>
   length (fst (forEachKey r ev ks acc)) = length (snd (forEachKey r ev ks acc))"
  by (induction ks arbitrary: acc) (auto split: option.splits prod.splits)

lemma forEachKey_lengths0:
  "length (fst (forEachKey r ev ks ([], []))) = length (snd (forEachKey r ev ks ([], [])))"
  by (rule forEachKey_lengths) simp

lemma getComponentByRef_truthy: "getComponentByRef r v = Some u \<Longrightarrow> truthy v"
  by (cases "truthy v") (simp_all add: getComponentByRef_falsy)

text \<open>The three ways out of \<open>getMultipleComponents\<close>, by the value read for the slot.\<close>

lemma multi_single:
  assumes "slotValue w n = v" and "getComponentByRef r v = Some u"
  shows "getMultipleComponents r w n = Some [u]"
  using assms getComponentByRef_truthy [OF assms(2)]
  by (simp add: getMultipleComponents_slotValue)

lemma multi_hash:
  assumes "slotValue w n = v" and "truthy v" and "getComponentByRef r v = None"
    and "typeof_js v = ''object''" and "ownKeys v \<noteq> []"
  shows "getMultipleComponents r w n =
     Some (map (\<lambda>item. Wrapped item
             [(''loadedPluginNames'',
               JArr (map JStr (fst (forEachKey r v (ownKeys v) ([], [])))))])
            (snd (forEachKey r v (ownKeys v) ([], []))))"
  using assms by (simp add: getMultipleComponents_slotValue)

lemma multi_none:
  assumes "slotValue w n = v" and "getComponentByRef r v = None"
    and "typeof_js v \<noteq> ''object'' \<or> ownKeys v = []"
  shows "getMultipleComponents r w n = None"
  using assms by (auto simp: getMultipleComponents_slotValue)

lemma wrapped_list_not_connected:
  "map (\<lambda>item. Wrapped item ps) cs \<noteq> [Connected c]"
  by (cases cs) simp_all

lemma wrapped_lists_eq:
  assumes "map (\<lambda>item. Wrapped item [(l, JArr (map JStr ns1))]) cs1 =
           map (\<lambda>item. Wrapped item [(l, JArr (map JStr ns2))]) cs2"
    and "length ns1 = length cs1" and "length ns2 = length cs2"
  shows "ns1 = ns2 \<and> cs1 = cs2"
proof (cases cs1)
  case Nil
  with assms show ?thesis by auto
next
  case (Cons c cs)
  with assms(1) obtain c' cs' where "cs2 = c' # cs'" by (cases cs2) auto
  with Cons assms(1) have "map JStr ns1 = map JStr ns2" by simp
  moreover have "inj JStr" by (simp add: inj_on_def)
  ultimately have n: "ns1 = ns2" by (simp add: inj_map_eq_map)
  have "inj (\<lambda>item. Wrapped item [(l, JArr (map JStr ns2))])" by (simp add: inj_on_def)
  with assms(1) n have "cs1 = cs2" by (simp add: inj_map_eq_map)
  with n show ?thesis by simp
qed

text \<open>
  A property read yields a strictly smaller value: values are finite trees, so a value is
  never its own \<^verbatim>\<open>default\<close>, nor the \<^verbatim>\<open>default\<close> of its \<^verbatim>\<open>default\<close>.
\<close>

lemma member_smaller: "(k, x) \<in> set ps \<Longrightarrow> size x < size (JObj ps)"
  by (induction ps) auto

lemma member_smaller_fun: "(k, x) \<in> set ps \<Longrightarrow> size x < size (JFun f ps)"
  by (induction ps) auto

lemma item_smaller: "x \<in> set xs \<Longrightarrow> size x < size (JArr xs)"
  by (induction xs) auto

lemma getProp_smaller: "truthy (getProp v k) \<Longrightarrow> size (getProp v k) < size v"
proof (cases v)
  case (JObj ps)
  assume t: "truthy (getProp v k)"
  with JObj obtain x where "map_of ps k = Some x" by (cases "map_of ps k") auto
  then have "(k, x) \<in> set ps" "getProp v k = x" using JObj by (auto dest: map_of_SomeD)
  then show ?thesis using JObj by (simp add: member_smaller del: jsval.size)
next
  case (JFun f ps)
  assume t: "truthy (getProp v k)"
  with JFun obtain x where "map_of ps k = Some x" by (cases "map_of ps k") auto
  then have "(k, x) \<in> set ps" "getProp v k = x" using JFun by (auto dest: map_of_SomeD)
  then show ?thesis using JFun by (simp add: member_smaller_fun del: jsval.size)
next
  case (JArr xs)
  assume t: "truthy (getProp v k)"
  show ?thesis
  proof (cases "k = ''length''")
    case True
    then show ?thesis using JArr by simp
  next
    case False
    with t JArr obtain i where f: "List.find (\<lambda>i. decimal i = k) [0..<length xs] = Some i"
      by (cases "List.find (\<lambda>i. decimal i = k) [0..<length xs]") auto
    then have "i < length xs" by (auto simp: find_Some_iff)
    then have "xs ! i \<in> set xs" by simp
    moreover have "getProp v k = xs ! i" using JArr False f by simp
    ultimately show ?thesis using JArr by (simp add: item_smaller del: jsval.size)
  qed
qed simp_all

lemma getProp_not_self: "truthy (getProp v k) \<Longrightarrow> getProp v k \<noteq> v"
  using getProp_smaller [of v k] by auto

lemma getProp_no_cycle:
  "truthy (getProp v k) \<Longrightarrow> truthy (getProp (getProp v k) j) \<Longrightarrow> getProp (getProp v k) j \<noteq> v"
  using getProp_smaller [of v k] getProp_smaller [of "getProp v k" j] by auto

lemma truthy_member_keys:
  assumes "typeof_js h = ''object''" and "truthy (getProp h ''default'')"
  shows "ownKeys h \<noteq> []"
proof (cases h)
  case (JObj ps)
  with assms(2) show ?thesis by (cases ps) auto
next
  case (JArr xs)
  with assms(2) show ?thesis by (cases xs) auto
qed (use assms in simp_all)


section \<open>The element validator\<close>

text \<open>
  Claim C7. Whatever the rendering library's check is, \<open>isValidElementType\<close> answers
  true only for a value that is truthy (so neither \<^verbatim>\<open>null\<close> nor \<^verbatim>\<open>undefined\<close>), is not
  a string, and passes that check; every string, \<^verbatim>\<open>null\<close> and \<^verbatim>\<open>undefined\<close> are
  rejected.
\<close>

theorem isValidElementType_only_if:
  "(isValidElementType reactIs v \<longrightarrow> truthy v \<and> typeof_js v \<noteq> ''string'' \<and> reactIs v)
   \<and> \<not> isValidElementType reactIs (JStr s)
   \<and> \<not> isValidElementType reactIs Null
   \<and> \<not> isValidElementType reactIs Undefined"
  by (simp add: isValidElementType_def)

theorem isValidElementType_only_if_witness:
  "isValidElementType acceptsFunctions (JFun 1 [])
   \<and> truthy (JFun 1 []) \<and> typeof_js (JFun 1 []) \<noteq> ''string'' \<and> acceptsFunctions (JFun 1 [])
   \<and> \<not> isValidElementType acceptsFunctions (JStr ''div'')"
  using isValidElementType_only_if [of acceptsFunctions "JFun 1 []" "''div''"]
  by (simp add: isValidElementType_def acceptsFunctions_def)

section \<open>Absent and malformed slots\<close>

text \<open>
  Claim C9. When the global object has no property under the slot's key, the single-slot
  resolver \<open>getComponent\<close> and the multi-slot resolver \<open>getMultipleComponents\<close> both
  return \<^verbatim>\<open>null\<close>.
\<close>

theorem absent_slot_yields_nothing:
  assumes "map_of window (PREFIX @ name) = None"
  shows "getComponent reactIs window name = None
     \<and> getMultipleComponents reactIs window name = None"
  using assms
  by (simp add: getComponent_slotValue getMultipleComponents_slotValue slotValue_absent
      getComponentByRef_falsy)

theorem absent_slot_yields_nothing_witness:
  "map_of ([] :: props) (PREFIX @ ''Header'') = None
   \<and> getComponent acceptsFunctions [] ''Header'' = None
   \<and> getMultipleComponents acceptsFunctions [] ''Header'' = None"
  using absent_slot_yields_nothing [of "[]" "''Header''" acceptsFunctions] by simp

text \<open>
  Claim C5. A multi-slot entry that is neither an object nor a function (a number, a
  string, a boolean, a symbol) and is not a valid renderable makes
  \<open>getMultipleComponents\<close> return \<^verbatim>\<open>null\<close>. Functions are left out of "non-object": a
  JavaScript function is an object that \<^verbatim>\<open>typeof\<close> reports as \<^verbatim>\<open>"function"\<close>, and the
  rendering library accepts every function.
\<close>

theorem malformed_container_yields_nothing:
  assumes "map_of window (PREFIX @ name) = Some e"
    and "typeof_js e \<noteq> ''object''" and "typeof_js e \<noteq> ''function''"
    and "\<not> isValidElementType reactIs e"
  shows "getMultipleComponents reactIs window name = None"
proof -
  have d: "getProp e ''default'' = Undefined"
    using assms(2,3) by (rule primitive_getProp)
  have sv: "slotValue window name = (if truthy e then e else Null)"
    using assms(1) d by (simp add: slotValue_entry)
  show ?thesis
  proof (cases "truthy e")
    case True
    with sv have "slotValue window name = e" by simp
    moreover have "getComponentByRef reactIs e = None"
      using assms(4) d by (simp add: getComponentByRef_order invalid_falsy)
    ultimately show ?thesis
      using assms(2) by (simp add: getMultipleComponents_slotValue)
  next
    case False
    with sv show ?thesis by (simp add: getMultipleComponents_slotValue)
  qed
qed

theorem malformed_container_yields_nothing_witness:
  "getMultipleComponents acceptsFunctions
     [(PREFIX @ ''ExtraVisualisationSection'', JNum 42)] ''ExtraVisualisationSection'' = None
   \<and> getMultipleComponents acceptsFunctions
     [(PREFIX @ ''ExtraVisualisationSection'', JStr ''div'')] ''ExtraVisualisationSection'' = None"
proof -
  have n: "\<not> isValidElementType acceptsFunctions (JNum 42)"
    by (simp add: isValidElementType_def acceptsFunctions_def)
  have s: "\<not> isValidElementType acceptsFunctions (JStr ''div'')"
    by (simp add: isValidElementType_def)
  from malformed_container_yields_nothing
         [of "[(PREFIX @ ''ExtraVisualisationSection'', JNum 42)]"
             "''ExtraVisualisationSection''" "JNum 42" acceptsFunctions] n
       malformed_container_yields_nothing
         [of "[(PREFIX @ ''ExtraVisualisationSection'', JStr ''div'')]"
             "''ExtraVisualisationSection''" "JStr ''div''" acceptsFunctions] s
  show ?thesis by simp
qed

section \<open>Groups of plugins\<close>

text \<open>
  Claim C3, as the code has it. In the hash \<^verbatim>\<open>{ a: F1, b: { default: F3 }, c: F2 }\<close> the
  member \<open>b\<close> is a plain object, not a valid renderable, while \<open>a\<close> and \<open>c\<close> are
  function components. The member \<open>b\<close> is not dropped: the materializer unwraps its
  valid \<^verbatim>\<open>default\<close>, and the resolver returns three units, each with the names
  \<^verbatim>\<open>["a", "b", "c"]\<close>.
\<close>

theorem member_with_valid_default_kept:
  "\<not> isValidElementType acceptsFunctions (JObj [(''default'', JFun 3 [])])
   \<and> getMultipleComponents acceptsFunctions
       [(PREFIX @ ''ExtraVisualisationSection'',
         JObj [(''a'', JFun 1 []), (''b'', JObj [(''default'', JFun 3 [])]), (''c'', JFun 2 [])])]
       ''ExtraVisualisationSection''
     = Some [Wrapped (Connected (JFun 1 []))
               [(''loadedPluginNames'', JArr [JStr ''a'', JStr ''b'', JStr ''c''])],
             Wrapped (Connected (JFun 3 []))
               [(''loadedPluginNames'', JArr [JStr ''a'', JStr ''b'', JStr ''c''])],
             Wrapped (Connected (JFun 2 []))
               [(''loadedPluginNames'', JArr [JStr ''a'', JStr ''b'', JStr ''c''])]]"
  by (simp add: getMultipleComponents_slotValue slotValue_def getComponentByRef_order
      isValidElementType_def acceptsFunctions_def)

text \<open>
  Claim C3, amended. For the multi-slot entry \<^verbatim>\<open>{ a: Ca, b: Cb, c: Cc }\<close>, an object hash
  that is not itself a renderable, with \<open>Ca\<close> and \<open>Cc\<close> valid renderables and \<open>Cb\<close>
  failing validation (neither \<open>Cb\<close> nor its \<^verbatim>\<open>default\<close> is a valid renderable),
  \<open>getMultipleComponents\<close> returns exactly two units, the decorated \<open>Ca\<close> and then
  the decorated \<open>Cc\<close>, each wrapped with \<^verbatim>\<open>loadedPluginNames\<close> equal to
  \<^verbatim>\<open>["a", "c"]\<close>.
\<close>

theorem partial_hash_keeps_valid_members:
  assumes entry:
      "map_of window (PREFIX @ name) = Some (JObj [(''a'', ca), (''b'', cb), (''c'', cc)])"
    and hash: "\<not> reactIs (JObj [(''a'', ca), (''b'', cb), (''c'', cc)])"
    and a: "isValidElementType reactIs ca"
    and b: "\<not> isValidElementType reactIs cb"
      "\<not> isValidElementType reactIs (getProp cb ''default'')"
    and c: "isValidElementType reactIs cc"
  shows "\<exists>ua uc.
      getComponentByRef reactIs ca = Some ua \<and> getComponentByRef reactIs cc = Some uc
      \<and> getMultipleComponents reactIs window name =
          Some [Wrapped ua [(''loadedPluginNames'', JArr [JStr ''a'', JStr ''c''])],
                Wrapped uc [(''loadedPluginNames'', JArr [JStr ''a'', JStr ''c''])]]"
proof -
  let ?h = "JObj [(''a'', ca), (''b'', cb), (''c'', cc)]"
  obtain ua where ua: "getComponentByRef reactIs ca = Some ua"
    using a by (rule getComponentByRef_valid)
  obtain uc where uc: "getComponentByRef reactIs cc = Some uc"
    using c by (rule getComponentByRef_valid)
  have ub: "getComponentByRef reactIs cb = None"
    using b by (simp add: getComponentByRef_order)
  have sv: "slotValue window name = ?h"
    using entry by (simp add: slotValue_entry)
  have single: "getComponentByRef reactIs ?h = None"
    using hash by (simp add: getComponentByRef_order isValidElementType_def)
  have loop: "forEachKey reactIs ?h (ownKeys ?h) ([], []) = ([''a'', ''c''], [ua, uc])"
    using ua ub uc by simp
  have "getMultipleComponents reactIs window name =
          Some [Wrapped ua [(''loadedPluginNames'', JArr [JStr ''a'', JStr ''c''])],
                Wrapped uc [(''loadedPluginNames'', JArr [JStr ''a'', JStr ''c''])]]"
    unfolding getMultipleComponents_slotValue sv using single loop by simp
  with ua uc show ?thesis by blast
qed

theorem partial_hash_keeps_valid_members_witness:
  "getMultipleComponents acceptsFunctions
     [(PREFIX @ ''ExtraVisualisationSection'',
       JObj [(''a'', JFun 1 []), (''b'', JNum 7), (''c'', JFun 2 [])])]
     ''ExtraVisualisationSection'' =
   Some [Wrapped (Connected (JFun 1 [])) [(''loadedPluginNames'', JArr [JStr ''a'', JStr ''c''])],
         Wrapped (Connected (JFun 2 [])) [(''loadedPluginNames'', JArr [JStr ''a'', JStr ''c''])]]"
proof -
  let ?w = "[(PREFIX @ ''ExtraVisualisationSection'',
       JObj [(''a'', JFun 1 []), (''b'', JNum 7), (''c'', JFun 2 [])])]"
  have e: "map_of ?w (PREFIX @ ''ExtraVisualisationSection'') =
      Some (JObj [(''a'', JFun 1 []), (''b'', JNum 7), (''c'', JFun 2 [])])"
    by simp
  have d: "\<not> isValidElementType acceptsFunctions (getProp (JNum 7) ''default'')"
    by (simp add: isValidElementType_def)
  have a: "getComponentByRef acceptsFunctions (JFun 1 []) = Some (Connected (JFun 1 []))"
    by (simp add: getComponentByRef_order isValidElementType_def acceptsFunctions_def)
  have c: "getComponentByRef acceptsFunctions (JFun 2 []) = Some (Connected (JFun 2 []))"
    by (simp add: getComponentByRef_order isValidElementType_def acceptsFunctions_def)
  from partial_hash_keeps_valid_members
         [OF e acceptsFunctions_obj acceptsFunctions_fun acceptsFunctions_num d
             acceptsFunctions_fun]
  show ?thesis unfolding a c by simp
qed

lemma slotValue_unwrapped:
  assumes "map_of window (PREFIX @ name) = Some e"
    and "getProp e ''default'' = h" and "truthy h"
  shows "slotValue window name = h"
  using assms by (simp add: slotValue_entry)

lemma slotValue_direct:
  assumes "map_of window (PREFIX @ name) = Some h"
    and "truthy h" and "\<not> truthy (getProp h ''default'')"
  shows "slotValue window name = h"
  using assms by (simp add: slotValue_entry)


text \<open>
  Claim C1. A hash with own keys whose members all fail validation is to resolve to
  \<^verbatim>\<open>null\<close>, as an absent slot does. The code does not: on the hash path its one guard,
  \<^verbatim>\<open>if (!keys?.length) return null\<close>, runs before the members are filtered, and nothing
  tests \<^verbatim>\<open>pluginComponents\<close> after the loop. For the hash \<^verbatim>\<open>{ a: 5 }\<close> the one member
  fails validation and the resolver returns the empty array, which is not \<^verbatim>\<open>null\<close>.
\<close>

theorem all_members_invalid_not_null:
  "getComponentByRef acceptsFunctions (JNum 5) = None
   \<and> getMultipleComponents acceptsFunctions
       [(PREFIX @ ''ExtraVisualisationSection'', JObj [(''a'', JNum 5)])]
       ''ExtraVisualisationSection'' = Some []
   \<and> getMultipleComponents acceptsFunctions
       [(PREFIX @ ''ExtraVisualisationSection'', JObj [(''a'', JNum 5)])]
       ''ExtraVisualisationSection'' \<noteq> None"
  by (simp add: getMultipleComponents_slotValue slotValue_def getComponentByRef_order
      isValidElementType_def acceptsFunctions_def)

text \<open>
  The empty array is not particular to that hash. For every entry that is an object with
  at least one own key, is not itself a renderable and has no truthy \<^verbatim>\<open>default\<close>
  member, the code returns the empty sequence when every member fails validation.
\<close>

theorem all_members_invalid_yields_empty:
  assumes entry: "map_of window (PREFIX @ name) = Some e"
    and obj: "typeof_js e = ''object''"
    and nodefault: "\<not> truthy (getProp e ''default'')"
    and keys: "ownKeys e \<noteq> []"
    and hash: "\<not> reactIs e"
    and members: "\<forall>k\<in>set (ownKeys e). getComponentByRef reactIs (getProp e k) = None"
  shows "getMultipleComponents reactIs window name = Some []"
proof -
  have t: "truthy e" using obj keys by (cases e) simp_all
  have sv: "slotValue window name = e"
    using entry t nodefault by (rule slotValue_direct)
  have single: "getComponentByRef reactIs e = None"
    using hash nodefault
    by (simp add: getComponentByRef_order invalid_falsy isValidElementType_def)
  have loop: "forEachKey reactIs e (ownKeys e) ([], []) = ([], [])"
    using members by (rule forEachKey_none)
  show ?thesis
    unfolding getMultipleComponents_slotValue sv using t single obj keys loop by simp
qed

theorem all_members_invalid_yields_empty_witness:
  "getMultipleComponents acceptsFunctions
       [(PREFIX @ ''ExtraVisualisationSection'', JObj [(''a'', JNum 5), (''b'', JStr ''div'')])]
       ''ExtraVisualisationSection'' = Some []"
proof -
  let ?e = "JObj [(''a'', JNum 5), (''b'', JStr ''div'')]"
  have m: "\<forall>k\<in>set (ownKeys ?e). getComponentByRef acceptsFunctions (getProp ?e k) = None"
    by (simp add: getComponentByRef_order isValidElementType_def acceptsFunctions_def)
  from all_members_invalid_yields_empty
         [of "[(PREFIX @ ''ExtraVisualisationSection'', ?e)]"
             "''ExtraVisualisationSection''" ?e acceptsFunctions] m
  show ?thesis by (simp add: acceptsFunctions_def)
qed

text \<open>
  Claim C4, as the code has it. A function component \<open>F\<close> with a static property
  \<^verbatim>\<open>F.default = 5\<close> is a valid renderable and the materializer accepts it, yet registered
  at a multi-slot key it resolves to \<^verbatim>\<open>null\<close>: the resolver reads the truthy
  \<^verbatim>\<open>default\<close>, the number 5, in place of \<open>F\<close>.
\<close>

theorem renderable_with_default_lost:
  "isValidElementType acceptsFunctions (JFun 1 [(''default'', JNum 5)])
   \<and> getComponentByRef acceptsFunctions (JFun 1 [(''default'', JNum 5)])
       = Some (Connected (JFun 1 [(''default'', JNum 5)]))
   \<and> getMultipleComponents acceptsFunctions
       [(PREFIX @ ''ExtraVisualisationSection'', JFun 1 [(''default'', JNum 5)])]
       ''ExtraVisualisationSection'' = None"
  by (simp add: getMultipleComponents_slotValue slotValue_def getComponentByRef_order
      isValidElementType_def acceptsFunctions_def)

text \<open>
  Claim C4, amended. Let the value read for the slot be the entry's \<^verbatim>\<open>default\<close> when
  that is truthy and the entry itself otherwise. Whenever that value materializes as a
  single candidate, \<open>getMultipleComponents\<close> returns the one-element sequence holding
  that decorated unit, and the unit is the connected component itself, with no
  \<^verbatim>\<open>loadedPluginNames\<close> wrapper around it. This covers every valid single candidate that
  has no truthy \<^verbatim>\<open>default\<close> property.
\<close>

theorem single_candidate_singleton:
  assumes "map_of window (PREFIX @ name) = Some e"
    and "getComponentByRef reactIs
           (if truthy (getProp e ''default'') then getProp e ''default'' else e) = Some u"
  shows "getMultipleComponents reactIs window name = Some [u] \<and> (\<exists>c. u = Connected c)"
proof -
  let ?chosen = "if truthy (getProp e ''default'') then getProp e ''default'' else e"
  have t: "truthy ?chosen"
  proof (rule ccontr)
    assume "\<not> truthy ?chosen"
    then have "getComponentByRef reactIs ?chosen = None" by (rule getComponentByRef_falsy)
    with assms(2) show False by simp
  qed
  then have sv: "slotValue window name = ?chosen"
    using assms(1) by (auto simp: slotValue_entry split: if_splits)
  have "getMultipleComponents reactIs window name = Some [u]"
    unfolding getMultipleComponents_slotValue sv using t assms(2) by simp
  moreover have "\<exists>c. u = Connected c"
    using assms(2) by (auto simp: getComponentByRef_order split: if_splits)
  ultimately show ?thesis by simp
qed

theorem single_candidate_singleton_witness:
  "getMultipleComponents acceptsFunctions
       [(PREFIX @ ''ExtraVisualisationSection'', JFun 1 [])] ''ExtraVisualisationSection''
     = Some [Connected (JFun 1 [])]"
proof -
  have u: "getComponentByRef acceptsFunctions
      (if truthy (getProp (JFun 1 []) ''default'') then getProp (JFun 1 []) ''default''
       else JFun 1 []) = Some (Connected (JFun 1 []))"
    by (simp add: getComponentByRef_order isValidElementType_def acceptsFunctions_def)
  have e: "map_of [(PREFIX @ ''ExtraVisualisationSection'', JFun 1 [])]
      (PREFIX @ ''ExtraVisualisationSection'') = Some (JFun 1 [])" by simp
  from single_candidate_singleton [OF e u] show ?thesis by simp
qed




text \<open>
  The three cases are all there are: when an object hash has a truthy \<^verbatim>\<open>default\<close>
  member and the two registrations resolve alike, the second or the third case holds.
\<close>

lemma default_hash_alike_only_so:
  assumes hash: "typeof_js h = ''object''" "truthy h"
    and member: "truthy (getProp h ''default'')"
    and wrapped: "map_of window1 (PREFIX @ name) = Some e" "getProp e ''default'' = h"
    and direct: "map_of window2 (PREFIX @ name) = Some h"
    and same: "getMultipleComponents reactIs window1 name
                 = getMultipleComponents reactIs window2 name"
  shows "(isValidElementType reactIs (getProp h ''default'')
           \<and> \<not> isValidElementType reactIs (getProp (getProp h ''default'') ''default''))
       \<or> (\<not> isValidElementType reactIs (getProp h ''default'')
           \<and> \<not> isValidElementType reactIs (getProp (getProp h ''default'') ''default'')
           \<and> \<not> isValidElementType reactIs h
           \<and> typeof_js (getProp h ''default'') = ''object''
           \<and> ownKeys (getProp h ''default'') \<noteq> []
           \<and> forEachKey reactIs (getProp h ''default'') (ownKeys (getProp h ''default'')) ([], [])
               = forEachKey reactIs h (ownKeys h) ([], []))"
proof -
  let ?d = "getProp h ''default''"
  let ?dd = "getProp ?d ''default''"
  let ?W = "\<lambda>v. map (\<lambda>item. Wrapped item
             [(''loadedPluginNames'',
               JArr (map JStr (fst (forEachKey reactIs v (ownKeys v) ([], [])))))])
            (snd (forEachKey reactIs v (ownKeys v) ([], [])))"
  have s1: "slotValue window1 name = h" using wrapped hash(2) by (rule slotValue_unwrapped)
  have s2: "slotValue window2 name = ?d" using direct member by (simp add: slotValue_entry)
  have kh: "ownKeys h \<noteq> []" using hash(1) member by (rule truthy_member_keys)
  have m1: "getMultipleComponents reactIs window1 name =
      (case getComponentByRef reactIs h of Some u \<Rightarrow> Some [u] | None \<Rightarrow> Some (?W h))"
  proof (cases "getComponentByRef reactIs h")
    case None
    from multi_hash [OF s1 hash(2) None hash(1) kh] None show ?thesis by simp
  next
    case (Some u)
    from multi_single [OF s1 Some] Some show ?thesis by simp
  qed
  show ?thesis
  proof (cases "isValidElementType reactIs ?dd")
    case True
    then have tdd: "truthy ?dd" by (rule valid_truthy)
    have ne: "?dd \<noteq> ?d" "?dd \<noteq> h"
      using getProp_not_self [OF tdd] getProp_no_cycle [OF member tdd] by simp_all
    have "getComponentByRef reactIs ?d = Some (Connected ?dd)"
      using True by (simp add: getComponentByRef_order)
    with s2 have m2: "getMultipleComponents reactIs window2 name = Some [Connected ?dd]"
      by (rule multi_single)
    have "getMultipleComponents reactIs window1 name \<noteq> Some [Connected ?dd]"
      unfolding m1 using ne
      by (auto simp: getComponentByRef_order wrapped_list_not_connected split: if_splits)
    with m2 same show ?thesis by simp
  next
    case ndd: False
    show ?thesis
    proof (cases "isValidElementType reactIs ?d")
      case True
      with ndd show ?thesis by simp
    next
      case nd: False
      with ndd have u2: "getComponentByRef reactIs ?d = None"
        by (simp add: getComponentByRef_order)
      have m2: "getMultipleComponents reactIs window2 name =
          (if typeof_js ?d \<noteq> ''object'' \<or> ownKeys ?d = [] then None else Some (?W ?d))"
      proof (cases "typeof_js ?d \<noteq> ''object'' \<or> ownKeys ?d = []")
        case True
        with multi_none [OF s2 u2] show ?thesis by simp
      next
        case False
        then have "typeof_js ?d = ''object''" "ownKeys ?d \<noteq> []" by simp_all
        from multi_hash [OF s2 member u2 this] False show ?thesis by simp
      qed
      have nh: "\<not> isValidElementType reactIs h"
      proof
        assume "isValidElementType reactIs h"
        with nd have "getComponentByRef reactIs h = Some (Connected h)"
          by (simp add: getComponentByRef_order)
        with m1 have "getMultipleComponents reactIs window1 name = Some [Connected h]" by simp
        with same m2 show False
          by (auto simp: wrapped_list_not_connected split: if_splits dest: sym)
      qed
      with nd have "getComponentByRef reactIs h = None" by (simp add: getComponentByRef_order)
      with m1 have m1': "getMultipleComponents reactIs window1 name = Some (?W h)" by simp
      from same m1' m2 have obj: "typeof_js ?d = ''object''" "ownKeys ?d \<noteq> []"
        and eq: "?W ?d = ?W h"
        by (auto split: if_splits)
      from wrapped_lists_eq [OF eq forEachKey_lengths0 forEachKey_lengths0]
      have "forEachKey reactIs ?d (ownKeys ?d) ([], []) = forEachKey reactIs h (ownKeys h) ([], [])"
        by (simp add: prod_eq_iff)
      with nd ndd nh obj show ?thesis by simp
    qed
  qed
qed

section \<open>The single slot and the default export\<close>

text \<open>
  Claim C2, as the code has it. The entry is a function component \<open>F\<close> with
  \<^verbatim>\<open>F.default = 5\<close>: itself a valid renderable, its \<^verbatim>\<open>default\<close> truthy and not valid.
  The claim has it resolve to \<open>F\<close>; \<open>getComponent\<close> hands the number 5 to the
  materializer and returns \<^verbatim>\<open>null\<close>.
\<close>

theorem valid_entry_with_invalid_default_unresolved:
  "isValidElementType acceptsFunctions (JFun 1 [(''default'', JNum 5)])
   \<and> truthy (getProp (JFun 1 [(''default'', JNum 5)]) ''default'')
   \<and> \<not> isValidElementType acceptsFunctions (getProp (JFun 1 [(''default'', JNum 5)]) ''default'')
   \<and> getComponent acceptsFunctions
       [(PREFIX @ ''Header'', JFun 1 [(''default'', JNum 5)])] ''Header'' = None
   \<and> getComponent acceptsFunctions
       [(PREFIX @ ''Header'', JFun 1 [(''default'', JNum 5)])] ''Header''
       \<noteq> Some (Connected (JFun 1 [(''default'', JNum 5)]))"
  by (simp add: getComponent_slotValue slotValue_def getComponentByRef_order
      isValidElementType_def acceptsFunctions_def)

text \<open>
  Claim C2, amended. For every entry present at a slot, \<open>getComponent\<close> first replaces
  the entry by its \<^verbatim>\<open>default\<close> property whenever that property is truthy, valid or not.
  To the value so chosen it applies the decision order: if the chosen value exposes a
  valid \<^verbatim>\<open>default\<close>, the result is that default, decorated; otherwise, if the chosen
  value is itself a valid renderable, the result is the chosen value, decorated;
  otherwise nothing. So the order holds of the entry itself when its \<^verbatim>\<open>default\<close> is
  absent or falsy, and an entry \<^verbatim>\<open>{ default: C }\<close> with \<open>C\<close> valid and without a valid
  default of its own resolves to \<open>C\<close>.
\<close>

theorem getComponent_unwraps_then_decides:
  assumes "map_of window (PREFIX @ name) = Some e"
  shows "getComponent reactIs window name =
     (let chosen = (if truthy (getProp e ''default'') then getProp e ''default'' else e)
      in if isValidElementType reactIs (getProp chosen ''default'')
         then Some (Connected (getProp chosen ''default''))
         else if isValidElementType reactIs chosen then Some (Connected chosen)
         else None)"
proof (cases "truthy (getProp e ''default'') \<or> truthy e")
  case True
  then have "slotValue window name =
      (if truthy (getProp e ''default'') then getProp e ''default'' else e)"
    using assms by (auto simp: slotValue_entry)
  then show ?thesis
    by (simp add: getComponent_slotValue getComponentByRef_order Let_def)
next
  case False
  then have "slotValue window name = Null" and "getProp e ''default'' = Undefined"
    and "\<not> isValidElementType reactIs e"
    using assms by (simp_all add: slotValue_entry falsy_getProp invalid_falsy)
  then show ?thesis
    by (simp add: getComponent_slotValue getComponentByRef_falsy Let_def invalid_falsy)
qed

theorem getComponent_unwraps_then_decides_witness:
  "getComponent acceptsFunctions [(PREFIX @ ''Header'', JObj [(''default'', JFun 1 [])])] ''Header''
     = Some (Connected (JFun 1 []))
   \<and> getComponent acceptsFunctions [(PREFIX @ ''Header'', JFun 1 [])] ''Header''
     = Some (Connected (JFun 1 []))
   \<and> getComponent acceptsFunctions [(PREFIX @ ''Header'', JNum 3)] ''Header'' = None"
  using getComponent_unwraps_then_decides
          [of "[(PREFIX @ ''Header'', JObj [(''default'', JFun 1 [])])]" "''Header''"
              "JObj [(''default'', JFun 1 [])]" acceptsFunctions]
    getComponent_unwraps_then_decides
          [of "[(PREFIX @ ''Header'', JFun 1 [])]" "''Header''" "JFun 1 []" acceptsFunctions]
    getComponent_unwraps_then_decides
          [of "[(PREFIX @ ''Header'', JNum 3)]" "''Header''" "JNum 3" acceptsFunctions]
  by (simp add: isValidElementType_def acceptsFunctions_def)




text \<open>
  No other valid renderable resolves alike in the two shapes: when its \<^verbatim>\<open>default\<close> is
  truthy and either not valid or exposing a valid \<^verbatim>\<open>default\<close> of its own, both resolvers
  tell the entry whose \<^verbatim>\<open>default\<close> it is from the entry that it is.
\<close>

lemma default_export_differs_otherwise:
  assumes valid: "isValidElementType reactIs c"
    and other: "truthy (getProp c ''default'')"
      "\<not> isValidElementType reactIs (getProp c ''default'')
        \<or> isValidElementType reactIs (getProp (getProp c ''default'') ''default'')"
    and wrapped: "map_of window1 (PREFIX @ name) = Some e" "getProp e ''default'' = c"
    and direct: "map_of window2 (PREFIX @ name) = Some c"
  shows "getComponent reactIs window1 name \<noteq> getComponent reactIs window2 name
     \<and> getMultipleComponents reactIs window1 name \<noteq> getMultipleComponents reactIs window2 name"
proof -
  let ?d = "getProp c ''default''"
  let ?dd = "getProp ?d ''default''"
  let ?u = "Connected (if isValidElementType reactIs ?d then ?d else c)"
  have t: "truthy c" using valid by (rule valid_truthy)
  have s1: "slotValue window1 name = c" using wrapped t by (rule slotValue_unwrapped)
  have u1: "getComponentByRef reactIs c = Some ?u"
    using valid by (simp add: getComponentByRef_order)
  have s2: "slotValue window2 name = ?d" using direct other(1) by (simp add: slotValue_entry)
  have g1: "getComponent reactIs window1 name = Some ?u"
    using s1 u1 by (simp add: getComponent_slotValue)
  have m1: "getMultipleComponents reactIs window1 name = Some [?u]"
    using s1 u1 by (rule multi_single)
  show ?thesis
  proof (cases "isValidElementType reactIs ?dd")
    case True
    then have tdd: "truthy ?dd" by (rule valid_truthy)
    have ne: "?dd \<noteq> ?d" "?dd \<noteq> c"
      using getProp_not_self [OF tdd] getProp_no_cycle [OF other(1) tdd] by simp_all
    have u2: "getComponentByRef reactIs ?d = Some (Connected ?dd)"
      using True by (simp add: getComponentByRef_order)
    have "getComponent reactIs window2 name = Some (Connected ?dd)"
      using s2 u2 by (simp add: getComponent_slotValue)
    moreover have "getMultipleComponents reactIs window2 name = Some [Connected ?dd]"
      using s2 u2 by (rule multi_single)
    ultimately show ?thesis using g1 m1 ne by auto
  next
    case False
    with other(2) have nd: "\<not> isValidElementType reactIs ?d" by simp
    with False have u2: "getComponentByRef reactIs ?d = None"
      by (simp add: getComponentByRef_order)
    have g2: "getComponent reactIs window2 name = None"
      using s2 u2 by (simp add: getComponent_slotValue)
    have "getMultipleComponents reactIs window2 name \<noteq> Some [?u]"
    proof (cases "typeof_js ?d \<noteq> ''object'' \<or> ownKeys ?d = []")
      case True
      with s2 u2 have "getMultipleComponents reactIs window2 name = None" by (rule multi_none)
      then show ?thesis by simp
    next
      case False
      then have "typeof_js ?d = ''object''" "ownKeys ?d \<noteq> []" by simp_all
      from multi_hash [OF s2 other(1) u2 this]
      show ?thesis by (simp add: wrapped_list_not_connected)
    qed
    with g1 g2 m1 show ?thesis by simp
  qed
qed

section \<open>The prop-injection wrapper\<close>

lemma map_of_spread:
  "distinct (map fst source) \<Longrightarrow> map_of (spread target source) = map_of target ++ map_of source"
proof (induction source arbitrary: target)
  case Nil
  then show ?case by (simp add: spread_def)
next
  case (Cons p source)
  obtain k v where p: "p = (k, v)" by (cases p)
  from Cons.prems p have k: "k \<notin> fst ` set source" and d: "distinct (map fst source)"
    by auto
  have "spread target (p # source) = spread (AList.update k v target) source"
    by (simp add: spread_def p)
  then have "map_of (spread target (p # source)) =
      map_of (AList.update k v target) ++ map_of source"
    by (simp only: Cons.IH [OF d])
  also have "\<dots> = (map_of target)(k \<mapsto> v) ++ map_of source"
    by (simp only: update_conv')
  also have "\<dots> = map_of target ++ map_of (p # source)"
  proof -
    from k have "map_of source k = None" by (simp add: map_of_eq_None_iff)
    then show ?thesis
      by (auto simp: p map_add_def fun_eq_iff split: option.splits)
  qed
  finally show ?case .
qed

lemma map_of_rest:
  "map_of (filter (\<lambda>(k, v). k \<noteq> c) ps) = (map_of ps)(c := None)"
  by (induction ps) (auto simp: fun_eq_iff)

lemma distinct_rest:
  "distinct (map fst ps) \<Longrightarrow> distinct (map fst (filter (\<lambda>(k, v). k \<noteq> c) ps))"
  by (simp add: distinct_map_filter)

text \<open>
  Claim C6. For every component, every extra-props object and every props object of the
  caller (objects: each key once), rendering the wrapper made by
  \<open>wrapComponentWithProps\<close> creates an element of the underlying component whose props
  are the merge of the caller's props and the extra props: a key of the extra props has
  the extra props' value, whatever the caller passed; any other key except
  \<^verbatim>\<open>children\<close> has the caller's value; the caller's \<^verbatim>\<open>children\<close> is not among the merged
  props and is passed as the children argument instead.
\<close>

theorem wrapper_merges_props:
  assumes "distinct (map fst props)" and "distinct (map fst overwriteProps)"
  shows "\<exists>merged.
      render (Wrapped component overwriteProps) props =
        Some (CreateElement component merged (getProp (JObj props) ''children''))
      \<and> (\<forall>k. getProp (JObj merged) k =
            (if k \<in> fst ` set overwriteProps then getProp (JObj overwriteProps) k
             else if k = ''children'' then Undefined
             else getProp (JObj props) k))
      \<and> fst ` set merged = (fst ` set props - {''children''}) \<union> fst ` set overwriteProps"
proof -
  let ?rest = "filter (\<lambda>(k, v). k \<noteq> ''children'') props"
  let ?merged = "spread (spread [] ?rest) overwriteProps"
  have m: "map_of ?merged = (map_of props)(''children'' := None) ++ map_of overwriteProps"
    using assms by (simp add: map_of_spread distinct_rest map_of_rest)
  have r: "render (Wrapped component overwriteProps) props =
        Some (CreateElement component ?merged (getProp (JObj props) ''children''))"
    by (simp add: wrapComponentWithProps_def Let_def)
  have l: "getProp (JObj ?merged) k =
            (if k \<in> fst ` set overwriteProps then getProp (JObj overwriteProps) k
             else if k = ''children'' then Undefined
             else getProp (JObj props) k)" for k
    unfolding getProp.simps m dom_map_of_conv_image_fst [symmetric]
    by (auto simp: map_add_def domIff split: option.splits)
  have "fst ` set ?merged = dom (map_of ?merged)"
    by (simp add: dom_map_of_conv_image_fst)
  also have "\<dots> = (fst ` set props - {''children''}) \<union> fst ` set overwriteProps"
    unfolding m by (auto simp: dom_map_of_conv_image_fst)
  finally have d:
    "fst ` set ?merged = (fst ` set props - {''children''}) \<union> fst ` set overwriteProps" .
  from r l d show ?thesis by blast
qed

theorem wrapper_merges_props_witness:
  "render (Wrapped (Connected (JFun 1 []))
       [(''loadedPluginNames'', JArr [JStr ''a'']), (''x'', JNum 1)])
     [(''x'', JNum 7), (''children'', JStr ''kid''), (''y'', JNum 2)]
   = Some (CreateElement (Connected (JFun 1 []))
       [(''x'', JNum 1), (''y'', JNum 2), (''loadedPluginNames'', JArr [JStr ''a''])]
       (JStr ''kid''))"
proof -
  have p: "distinct (map fst [(''x'', JNum 7), (''children'', JStr ''kid''), (''y'', JNum 2)])"
    by simp
  have e: "distinct (map fst [(''loadedPluginNames'', JArr [JStr ''a'']), (''x'', JNum 1)])"
    by simp
  from wrapper_merges_props [OF p e, of "Connected (JFun 1 [])"]
  show ?thesis by (simp add: wrapComponentWithProps_def spread_def)
qed

end
